theory Spec2Isabelle
  imports Complex_Main "HOL-Library.Word"
begin

section \<open>Errors\<close>

text \<open>
  Every exception the modelled code can raise is a value. \<open>Exception msg\<close> is the plain
  \<^verbatim>\<open>Exception\<close> that \<^verbatim>\<open>extract\<close> raises itself; the others are raised by Python or numpy
  inside the transforms. \<open>LibraryError\<close> stands for anything scipy's spectrogram raises.
\<close>

datatype error =
    Exception string
  | ValueError
  | ZeroDivisionError
  | TypeError
  | IndexError
  | LibraryError

definition bind_err :: "error + 'a \<Rightarrow> ('a \<Rightarrow> error + 'b) \<Rightarrow> error + 'b" where
  "bind_err m f = (case m of Inl e \<Rightarrow> Inl e | Inr x \<Rightarrow> f x)"

section \<open>The network builder's filter list (conv\_model.py, lines 36--41)\<close>

text \<open>
  \<^verbatim>\<open>list.extend\<close> takes an iterable. The argument the builder passes is the product of two
  Python ints, which is an int; a list would have been \<^verbatim>\<open>[num_filters[-1]] * k\<close>.
\<close>

datatype pyval = PyInt int | PyList "int list"

fun list_extend :: "int list \<Rightarrow> pyval \<Rightarrow> error + int list" where
  "list_extend xs (PyInt n) = Inl TypeError"
| "list_extend xs (PyList ys) = Inr (xs @ ys)"

text \<open>
  \<^verbatim>\<open>num_filters[-1]\<close>: the last element, IndexError on the empty list (which
  \<^verbatim>\<open>split(',')\<close> never returns).
\<close>

definition last_item :: "int list \<Rightarrow> error + int" where
  "last_item xs = (case rev xs of [] \<Rightarrow> Inl IndexError | x # _ \<Rightarrow> Inr x)"

text \<open>
  Lines 39--41, on the list parsed at line 36:
  \<^verbatim>\<open>
  if len(num_filters) < num_blocks:
      num_filters.extend(num_filters[-1] * (num_blocks - len(num_filters)))
  \<close>
\<close>

definition extend_filters :: "int list \<Rightarrow> int \<Rightarrow> error + int list" where
  "extend_filters num_filters num_blocks =
     (if int (length num_filters) < num_blocks
      then bind_err (last_item num_filters)
             (\<lambda>l. list_extend num_filters (PyInt (l * (num_blocks - int (length num_filters)))))
      else Inr num_filters)"

section \<open>Arrays\<close>

text \<open>
  A two-dimensional numpy array is its shape and its buffer in C order (row after row);
  the three-dimensional arrays the transforms return are modelled the same way. Element
  values are real numbers: the arithmetic of the model is exact, rounding of float64 is
  outside it. An array is well formed when the buffer has as many entries as the shape says.
\<close>

record ndarray =
  shape :: "nat \<times> nat"
  flat :: "real list"

record ndarray3 =
  shape3 :: "nat \<times> nat \<times> nat"
  flat3 :: "real list"

definition wf_array :: "ndarray \<Rightarrow> bool" where
  "wf_array a = (length (flat a) = fst (shape a) * snd (shape a))"

definition wf_array3 :: "ndarray3 \<Rightarrow> bool" where
  "wf_array3 a =
     (case shape3 a of (r, c, d) \<Rightarrow> length (flat3 a) = r * c * d)"

definition rows :: "ndarray \<Rightarrow> real list list" where
  "rows a =
     map (\<lambda>i. take (snd (shape a)) (drop (i * snd (shape a)) (flat a))) [0..<fst (shape a)]"

definition from_rows :: "nat \<Rightarrow> nat \<Rightarrow> real list list \<Rightarrow> ndarray" where
  "from_rows r c xss = \<lparr>shape = (r, c), flat = concat xss\<rparr>"

text \<open>\<^verbatim>\<open>a[i][j]\<close> and \<^verbatim>\<open>a[i][j][k]\<close> for indices inside the shape.\<close>

definition item :: "ndarray \<Rightarrow> nat \<Rightarrow> nat \<Rightarrow> real" where
  "item a i j = flat a ! (i * snd (shape a) + j)"

definition item3 :: "ndarray3 \<Rightarrow> nat \<Rightarrow> nat \<Rightarrow> nat \<Rightarrow> real" where
  "item3 a i j k =
     (case shape3 a of (r, c, d) \<Rightarrow> flat3 a ! ((i * c + j) * d + k))"

text \<open>
  \<^verbatim>\<open>np.pad(a, ((0, 0), (0, p)), 'constant', constant_values=0)\<close>: a new array with \<open>p\<close>
  zero columns appended; numpy raises ValueError on a negative pad width.
\<close>

definition np_pad :: "ndarray \<Rightarrow> int \<Rightarrow> error + ndarray" where
  "np_pad a p =
     (if p < 0 then Inl ValueError
      else Inr (from_rows (fst (shape a)) (snd (shape a) + nat p)
                  (map (\<lambda>row. row @ replicate (nat p) 0) (rows a))))"

text \<open>\<^verbatim>\<open>a.reshape(s)\<close>: the same buffer under a new shape, ValueError when the sizes differ.\<close>

definition reshape :: "ndarray \<Rightarrow> nat \<times> nat \<Rightarrow> error + ndarray" where
  "reshape a s =
     (if fst s * snd s = length (flat a) then Inr (a\<lparr>shape := s\<rparr>) else Inl ValueError)"

text \<open>
  \<^verbatim>\<open>np.abs(np.fft.rfft(a, n))\<close> along the last axis, as numpy documents it: each row is cut
  or zero-padded to \<open>n\<close> entries, and bin \<open>k\<close> for \<open>k = 0 .. n div 2\<close> is the modulus of
  \<open>\<Sum>m<n. x m * exp (- 2 \<pi> i k m / n)\<close>. numpy raises ValueError for \<open>n < 1\<close>.
\<close>

definition rfft_bin :: "real list \<Rightarrow> nat \<Rightarrow> complex" where
  "rfft_bin xs k =
     sum_list (map (\<lambda>m. complex_of_real (xs ! m) *
                          cis (- 2 * pi * real k * real m / real (length xs)))
                   [0..<length xs])"

definition rfft_abs :: "nat \<Rightarrow> real list \<Rightarrow> real list" where
  "rfft_abs n xs =
     (let ys = take n xs @ replicate (n - length xs) 0
      in map (\<lambda>k. cmod (rfft_bin ys k)) [0..<n div 2 + 1])"

definition np_abs_rfft :: "ndarray \<Rightarrow> int \<Rightarrow> error + ndarray" where
  "np_abs_rfft a n =
     (if n < 1 then Inl ValueError
      else Inr (from_rows (fst (shape a)) (nat n div 2 + 1)
                  (map (rfft_abs (nat n)) (rows a))))"

text \<open>
  \<^verbatim>\<open>np.max(a, axis=1)\<close> and \<^verbatim>\<open>np.min(a, axis=1)\<close>: one value per row; numpy raises
  ValueError when the reduced axis has length 0 (the reduction has no identity).
\<close>

fun row_max :: "real list \<Rightarrow> real" where
  "row_max (x # xs) = fold max xs x"

fun row_min :: "real list \<Rightarrow> real" where
  "row_min (x # xs) = fold min xs x"

definition np_max_axis1 :: "ndarray \<Rightarrow> error + real list" where
  "np_max_axis1 a =
     (if snd (shape a) = 0 then Inl ValueError else Inr (map row_max (rows a)))"

definition np_min_axis1 :: "ndarray \<Rightarrow> error + real list" where
  "np_min_axis1 a =
     (if snd (shape a) = 0 then Inl ValueError else Inr (map row_min (rows a)))"

text \<open>
  \<^verbatim>\<open>np.stack((a, b, c), axis=2)\<close>: entry \<open>(i, j)\<close> of the result is the triple of the three
  entries \<open>(i, j)\<close>; ValueError when the shapes differ.
\<close>

definition np_stack :: "ndarray \<Rightarrow> ndarray \<Rightarrow> ndarray \<Rightarrow> error + ndarray3" where
  "np_stack a b c =
     (if shape a = shape b \<and> shape b = shape c
      then Inr \<lparr>shape3 = (fst (shape a), snd (shape a), 3),
                flat3 = concat (map (\<lambda>(x, y, z). [x, y, z])
                                    (zip (flat a) (zip (flat b) (flat c))))\<rparr>
      else Inl ValueError)"

section \<open>The transforms (transform.py)\<close>

text \<open>
  The row normalisation that \<^verbatim>\<open>simple_fourier\<close> (lines 170--174) and \<^verbatim>\<open>nothing\<close>
  (lines 195--201) both write out: the maximum of each row, every maximum that is 0
  replaced by 1, each row divided by its value.
\<close>

definition normalize_rows :: "ndarray \<Rightarrow> error + ndarray" where
  "normalize_rows a =
     bind_err (np_max_axis1 a) (\<lambda>max_values.
       let max_values = map (\<lambda>m. if m = 0 then 1 else m) max_values
       in Inr (from_rows (fst (shape a)) (snd (shape a))
                 (map (\<lambda>(row, m). map (\<lambda>x. x / m) row) (zip (rows a) max_values))))"

text \<open>
  Lines 150--152 of \<^verbatim>\<open>simple_fourier\<close>:
  \<^verbatim>\<open>
  pad_length = chunk_size - (time_series.shape[1] % chunk_size)
  time_series = np.pad(time_series, ((0, 0), (0, pad_length)), 'constant', constant_values=0)
  \<close>
  Python's \<^verbatim>\<open>%\<close> on ints is HOL's \<open>mod\<close> on \<open>int\<close> and raises ZeroDivisionError at 0.
\<close>

definition pad_length :: "nat \<Rightarrow> int \<Rightarrow> int" where
  "pad_length t chunk_size = chunk_size - (int t mod chunk_size)"

definition pad_to_chunk :: "ndarray \<Rightarrow> int \<Rightarrow> error + ndarray" where
  "pad_to_chunk time_series chunk_size =
     (if chunk_size = 0 then Inl ZeroDivisionError
      else np_pad time_series (pad_length (snd (shape time_series)) chunk_size))"

text \<open>
  A transform returns its result (or the exception) together with the contents of the
  caller's array after the call: \<^verbatim>\<open>simple_fourier\<close> and \<^verbatim>\<open>spectrogram\<close> only rebind their
  local name to new arrays, \<^verbatim>\<open>nothing\<close> subtracts in place (\<^verbatim>\<open>time_series -= ...\<close>).

  In \<^verbatim>\<open>simple_fourier\<close>, \<^verbatim>\<open>int(np.product(shape) / chunk_size)\<close> is a floor division here
  (\<open>chunk_size\<close> is positive once the padding has passed), and
  \<^verbatim>\<open>np.product(shape) // num_time_series\<close> is numpy's integer division, which yields 0 for
  a zero divisor.
\<close>

definition simple_fourier :: "ndarray \<Rightarrow> int \<Rightarrow> int \<Rightarrow> (error + ndarray3) \<times> ndarray" where
  "simple_fourier time_series chunk_size fft_size =
     (let num_time_series = fst (shape time_series) in
      (bind_err (pad_to_chunk time_series chunk_size) (\<lambda>padded.
       bind_err (reshape padded
                  (nat (int (fst (shape padded) * snd (shape padded)) div chunk_size),
                   nat chunk_size)) (\<lambda>chunks.
       bind_err (np_abs_rfft chunks fft_size) (\<lambda>spectrum.
       let chunked_shape = shape spectrum in
       bind_err (reshape spectrum
                  (num_time_series,
                   if num_time_series = 0 then 0
                   else (fst chunked_shape * snd chunked_shape) div num_time_series))
         (\<lambda>by_series.
       bind_err (normalize_rows by_series) (\<lambda>normalized.
       bind_err (reshape normalized chunked_shape) (\<lambda>chunked.
       np_stack chunked chunked chunked)))))),
       time_series))"

text \<open>
  \<^verbatim>\<open>simple_fourier(time_series, **kwargs)\<close>: the keyword arguments are a list of
  name/value pairs; a name other than the two parameters is a TypeError, a missing one
  takes its default (64 and 128).
\<close>

type_synonym kwargs = "(string \<times> int) list"

definition simple_fourier_kw :: "ndarray \<Rightarrow> kwargs \<Rightarrow> (error + ndarray3) \<times> ndarray" where
  "simple_fourier_kw time_series kw =
     (if list_all (\<lambda>(k, v). k = ''chunk_size'' \<or> k = ''fft_size'') kw
      then simple_fourier time_series
             (case map_of kw ''chunk_size'' of None \<Rightarrow> 64 | Some v \<Rightarrow> v)
             (case map_of kw ''fft_size'' of None \<Rightarrow> 128 | Some v \<Rightarrow> v)
      else (Inl TypeError, time_series))"

text \<open>
  Line 191 of \<^verbatim>\<open>nothing\<close>, \<^verbatim>\<open>time_series -= np.min(time_series, axis=1).reshape(...)\<close>:
  every row minus its minimum, written into the argument itself.
\<close>

definition shift_rows :: "ndarray \<Rightarrow> error + ndarray" where
  "shift_rows a =
     bind_err (np_min_axis1 a) (\<lambda>min_values.
       Inr (from_rows (fst (shape a)) (snd (shape a))
              (map (\<lambda>(row, m). map (\<lambda>x. x - m) row) (zip (rows a) min_values))))"

definition nothing :: "ndarray \<Rightarrow> (error + ndarray3) \<times> ndarray" where
  "nothing time_series =
     (case shift_rows time_series of
        Inl e \<Rightarrow> (Inl e, time_series)
      | Inr shifted \<Rightarrow>
          (bind_err (normalize_rows shifted) (\<lambda>normalized.
             np_stack normalized normalized normalized),
           shifted))"

text \<open>
  \<^verbatim>\<open>spectrogram\<close>: \<^verbatim>\<open>signal.spectrogram\<close> is scipy's; its third result \<^verbatim>\<open>Sxx\<close> is the
  parameter \<open>sxx\<close>, from the flattened copy of the batch to a two-dimensional array, or
  \<open>None\<close> where scipy raises.
\<close>

definition spectrogram ::
  "(real list \<Rightarrow> ndarray option) \<Rightarrow> ndarray \<Rightarrow> (error + ndarray3) \<times> ndarray" where
  "spectrogram sxx time_series =
     ((case sxx (flat time_series) of
         None \<Rightarrow> Inl LibraryError
       | Some s \<Rightarrow> np_stack s s s),
      time_series)"

definition "extract" ::
  "(real list \<Rightarrow> ndarray option) \<Rightarrow> ndarray \<Rightarrow> string \<Rightarrow> kwargs \<Rightarrow>
   (error + ndarray3) \<times> ndarray" where
  "extract sxx time_series method kw =
     (if method = ''fft'' then simple_fourier_kw time_series kw
      else if method = ''spectrogram'' then spectrogram sxx time_series
      else if method = ''nothing'' then nothing time_series
      else (Inl (Exception ''Invalid feature extraction method''), time_series))"

section \<open>From a sample to its image (convert\_all\_csv, lines 97--106)\<close>





section \<open>Auxiliary definitions for the statements\<close>

text \<open>
  What \<open>normalize_rows\<close> and \<open>shift_rows\<close> do to one row, and the shape of a result.
\<close>

definition norm_row :: "real list \<Rightarrow> real list" where
  "norm_row row = map (\<lambda>x. x / (if row_max row = 0 then 1 else row_max row)) row"

definition shift_row :: "real list \<Rightarrow> real list" where
  "shift_row row = map (\<lambda>x. x - row_min row) row"

definition result_shape :: "error + ndarray3 \<Rightarrow> error + nat \<times> nat \<times> nat" where
  "result_shape r = (case r of Inl e \<Rightarrow> Inl e | Inr out \<Rightarrow> Inr (shape3 out))"

section \<open>Facts about the array operations\<close>

lemma upt_Suc_shift: "map f [0..<Suc r] = f 0 # map (\<lambda>i. f (Suc i)) [0..<r]"
  by (simp add: upt_conv_Cons map_Suc_upt [symmetric] del: upt_Suc)


lemma take_drop_concat:
  "(\<forall>xs\<in>set xss. length xs = c) \<Longrightarrow>
   map (\<lambda>i. take c (drop (i * c) (concat xss))) [0..<length xss] = xss"
proof (induction xss)
  case Nil
  then show ?case by simp
next
  case (Cons ys xss)
  have ly: "length ys = c" using Cons.prems by simp
  have "map (\<lambda>i. take c (drop (i * c) (concat (ys # xss)))) [0..<length (ys # xss)] =
        take c (ys @ concat xss) #
        map (\<lambda>i. take c (drop (i * c) (concat xss))) [0..<length xss]"
    using ly by (simp only: list.size upt_Suc_shift add_Suc_right add_0_right One_nat_def) (simp add: add.commute)
  also have "\<dots> = ys # xss"
    using Cons.IH Cons.prems ly by simp
  finally show ?case .
qed

lemma rows_from_rows:
  "length xss = r \<Longrightarrow> (\<forall>xs\<in>set xss. length xs = c) \<Longrightarrow> rows (from_rows r c xss) = xss"
  using take_drop_concat [of xss c] by (simp add: rows_def from_rows_def)

lemma length_concat_const:
  "(\<forall>xs\<in>set xss. length xs = c) \<Longrightarrow> length (concat xss) = length xss * c"
  by (induction xss) simp_all


lemma length_rows: "length (rows a) = fst (shape a)"
  by (simp add: rows_def)


lemma length_row:
  assumes "wf_array a" "row \<in> set (rows a)"
  shows "length row = snd (shape a)"
proof -
  obtain r c where s: "shape a = (r, c)" by (cases "shape a")
  from assms(2) s obtain i where i: "i < r" and row: "row = take c (drop (i * c) (flat a))"
    by (auto simp: rows_def)
  have "Suc i * c \<le> r * c" using i by (intro mult_le_mono1) simp
  then have "c \<le> r * c - i * c" by simp
  then show ?thesis using assms(1) s row by (simp add: wf_array_def)
qed

lemma wf_from_rows:
  "length xss = r \<Longrightarrow> (\<forall>xs\<in>set xss. length xs = c) \<Longrightarrow> wf_array (from_rows r c xss)"
  using length_concat_const [of xss c] by (simp add: wf_array_def from_rows_def)

lemma shape_from_rows [simp]: "shape (from_rows r c xss) = (r, c)"
  by (simp add: from_rows_def)

lemma flat_from_rows [simp]: "flat (from_rows r c xss) = concat xss"
  by (simp add: from_rows_def)

lemma item_rows:
  assumes "wf_array a" "i < fst (shape a)" "j < snd (shape a)"
  shows "item a i j = rows a ! i ! j"
proof -
  have "Suc i * snd (shape a) \<le> fst (shape a) * snd (shape a)"
    using assms(2) by (intro mult_le_mono1) simp
  then have "i * snd (shape a) + j < length (flat a)"
    using assms(1,3) by (simp add: wf_array_def)
  then show ?thesis
    using assms(2,3) by (simp add: item_def rows_def)
qed

lemma np_pad_ok:
  assumes "wf_array a" "0 \<le> p"
  shows "\<exists>b. np_pad a p = Inr b \<and> shape b = (fst (shape a), snd (shape a) + nat p) \<and> wf_array b"
proof -
  have "wf_array (from_rows (fst (shape a)) (snd (shape a) + nat p)
          (map (\<lambda>row. row @ replicate (nat p) 0) (rows a)))"
    using length_row [OF assms(1)] by (intro wf_from_rows) (auto simp: length_rows)
  then show ?thesis using assms(2) by (simp add: np_pad_def)
qed

lemma reshape_ok:
  assumes "wf_array a" "r * c = fst (shape a) * snd (shape a)"
  shows "\<exists>b. reshape a (r, c) = Inr b \<and> shape b = (r, c) \<and> flat b = flat a \<and> wf_array b"
  using assms by (simp add: reshape_def wf_array_def)

lemma length_rfft_abs [simp]: "length (rfft_abs n xs) = n div 2 + 1"
  by (simp add: rfft_abs_def Let_def)

lemma np_abs_rfft_ok:
  assumes "1 \<le> n"
  shows "\<exists>b. np_abs_rfft a n = Inr b \<and> shape b = (fst (shape a), nat n div 2 + 1) \<and> wf_array b"
proof -
  have "wf_array (from_rows (fst (shape a)) (nat n div 2 + 1) (map (rfft_abs (nat n)) (rows a)))"
    by (intro wf_from_rows) (auto simp: length_rows)
  then show ?thesis using assms by (simp add: np_abs_rfft_def)
qed


lemma map_zip_map: "map (\<lambda>(x, y). f x y) (zip xs (map g xs)) = map (\<lambda>x. f x (g x)) xs"
  by (induction xs) simp_all

lemma normalize_rows_ok:
  assumes "wf_array a" "0 < snd (shape a)"
  shows "\<exists>b. normalize_rows a = Inr b \<and> shape b = shape a \<and> wf_array b \<and>
             rows b = map norm_row (rows a)"
proof -
  let ?xss = "map norm_row (rows a)"
  have eq: "map (\<lambda>(row, m). map (\<lambda>x. x / m) row)
              (zip (rows a) (map (\<lambda>m. if m = 0 then 1 else m) (map row_max (rows a)))) = ?xss"
    using map_zip_map [of "\<lambda>row m. map (\<lambda>x. x / m) row" "rows a"
                          "\<lambda>row. if row_max row = 0 then 1 else row_max row"]
    by (simp add: norm_row_def comp_def)
  have len: "length ?xss = fst (shape a)" by (simp add: length_rows)
  have each: "\<forall>xs\<in>set ?xss. length xs = snd (shape a)"
    using length_row [OF assms(1)] by (auto simp: norm_row_def)
  have "normalize_rows a = Inr (from_rows (fst (shape a)) (snd (shape a)) ?xss)"
    using assms(2) eq by (simp add: normalize_rows_def np_max_axis1_def bind_err_def)
  then show ?thesis
    using wf_from_rows [OF len each] rows_from_rows [OF len each] by simp
qed

lemma length_stack_flat:
  "length (concat (map (\<lambda>(x, y, z). [x, y, z]) (zip xs (zip xs xs)))) = length xs * 3"
  by (induction xs) simp_all

lemma np_stack_same:
  "np_stack a a a =
     Inr \<lparr>shape3 = (fst (shape a), snd (shape a), 3),
          flat3 = concat (map (\<lambda>(x, y, z). [x, y, z]) (zip (flat a) (zip (flat a) (flat a))))\<rparr>"
  by (simp add: np_stack_def)

lemma np_stack_ok:
  assumes "wf_array a"
  shows "\<exists>out. np_stack a a a = Inr out \<and> shape3 out = (fst (shape a), snd (shape a), 3) \<and>
           wf_array3 out"
  using assms by (simp add: np_stack_same wf_array3_def wf_array_def length_stack_flat)

lemma pad_length_nat:
  assumes "0 < C"
  shows "pad_length T (int C) = int (C - T mod C)"
proof -
  have "T mod C < C" using assms by simp
  then show ?thesis by (simp add: pad_length_def zmod_int of_nat_diff)
qed

lemma padded_length:
  assumes "0 < C"
  shows "T + nat (pad_length T (int C)) = C * (T div C + 1)"
proof -
  define q m where "q = C * (T div C)" and "m = T mod C"
  have T: "T = q + m" and m: "m < C"
    using assms by (simp_all add: q_def m_def)
  have "T + nat (pad_length T (int C)) = T + (C - m)"
    by (simp add: pad_length_nat [OF assms] m_def)
  also have "\<dots> = q + C" using T m by arith
  finally show ?thesis by (simp add: q_def)
qed

lemma pad_to_chunk_ok:
  assumes "wf_array a" "0 < C"
  shows "\<exists>b. pad_to_chunk a (int C) = Inr b \<and>
             shape b = (fst (shape a), C * (snd (shape a) div C + 1)) \<and> wf_array b"
proof -
  have "0 \<le> pad_length (snd (shape a)) (int C)"
    by (simp add: pad_length_nat [OF assms(2)])
  from np_pad_ok [OF assms(1) this] show ?thesis
    using assms(2) padded_length [OF assms(2), of "snd (shape a)"]
    by (simp add: pad_to_chunk_def)
qed

lemma simple_fourier_ok:
  assumes wf: "wf_array a" and N: "0 < fst (shape a)" and C: "0 < C" and F: "0 < F"
  shows "\<exists>out. fst (simple_fourier a (int C) (int F)) = Inr out \<and>
           shape3 out = (fst (shape a) * (snd (shape a) div C + 1), F div 2 + 1, 3) \<and>
           wf_array3 out"
proof -
  define n k b where "n = fst (shape a)" and "k = snd (shape a) div C + 1"
    and "b = F div 2 + 1"
  have k: "0 < k" and b: "0 < b" and n: "0 < n"
    using N by (simp_all add: k_def b_def n_def)
  obtain padded where p: "pad_to_chunk a (int C) = Inr padded"
      "shape padded = (n, C * k)" "wf_array padded"
    using pad_to_chunk_ok [OF wf C] by (auto simp: n_def k_def)
  have r1: "nat (int (n * (C * k)) div int C) = n * k"
  proof -
    have "n * (C * k) = C * (n * k)" by (rule mult.left_commute)
    then have "n * (C * k) div C = n * k"
      using C by simp
    then show ?thesis
      by (simp add: zdiv_int [symmetric] del: of_nat_mult)
  qed
  have "(n * k) * C = fst (shape padded) * snd (shape padded)"
    using p(2) by (simp add: mult_ac)
  from reshape_ok [OF p(3) this]
  obtain chunks where c: "reshape padded (n * k, C) = Inr chunks"
      "shape chunks = (n * k, C)" "wf_array chunks"
    by blast
  obtain spectrum where s: "np_abs_rfft chunks (int F) = Inr spectrum"
      "shape spectrum = (n * k, b)" "wf_array spectrum"
    using np_abs_rfft_ok [of "int F" chunks] F c(2) by (auto simp: b_def)
  have r2: "n * k * b div n = k * b"
    using n by (simp add: mult.assoc)
  have n0: "(n = 0) = False" using n by simp
  have "n * (k * b) = fst (shape spectrum) * snd (shape spectrum)"
    using s(2) by (simp add: mult_ac)
  from reshape_ok [OF s(3) this]
  obtain by_series where bs: "reshape spectrum (n, k * b) = Inr by_series"
      "shape by_series = (n, k * b)" "wf_array by_series"
    by blast
  have "0 < snd (shape by_series)" using bs(2) k b by simp
  from normalize_rows_ok [OF bs(3) this]
  obtain normalized where nm: "normalize_rows by_series = Inr normalized"
      "shape normalized = (n, k * b)" "wf_array normalized"
    using bs(2) by auto
  have "(n * k) * b = fst (shape normalized) * snd (shape normalized)"
    using nm(2) by (simp add: mult_ac)
  from reshape_ok [OF nm(3) this]
  obtain chunked where ch: "reshape normalized (n * k, b) = Inr chunked"
      "shape chunked = (n * k, b)" "wf_array chunked"
    by blast
  obtain out where out: "np_stack chunked chunked chunked = Inr out"
      "shape3 out = (n * k, b, 3)" "wf_array3 out"
    using np_stack_ok [OF ch(3)] ch(2) by auto
  have "fst (simple_fourier a (int C) (int F)) = Inr out"
    unfolding simple_fourier_def Let_def fst_conv n_def [symmetric]
    by (simp only: p bind_err_def sum.case fst_conv snd_conv r1 nat_int c s r2 n0 bs nm ch out
        if_False)
  then show ?thesis using out by (auto simp: n_def k_def b_def)
qed


lemma ceil_div:
  assumes "0 < C" "T mod C \<noteq> 0"
  shows "(T + C - 1) div C = T div C + (1::nat)"
proof -
  define q m where "q = T div C + 1" and "m = T mod C - 1"
  have m: "m < C" and "T mod C = m + 1"
    using assms by (simp_all add: m_def less_imp_diff_less)
  then have "T = (m + 1) + (q - 1) * C"
    using mod_div_mult_eq [of T C] by (simp add: q_def)
  then have "T + C - 1 = m + q * C" by (simp add: q_def)
  then have "(T + C - 1) div C = q + m div C"
    using assms(1) by simp
  then show ?thesis using m by (simp add: q_def)
qed

section \<open>Chunk padding\<close>

text \<open>
  C1. The claim: the padded length is the smallest multiple of the chunk size that is at
  least \<open>T\<close>, so a series whose length is already a multiple gets no padding (pad amount
  \<open>(C - T mod C) mod C\<close>). The code pads a series of 4 steps with chunk size 2 to 6
  steps: its pad amount is \<open>C - T mod C = 2\<close>, where the claim's is 0.
\<close>

theorem pad_to_chunk_exact_multiple:
  "pad_to_chunk \<lparr>shape = (1, 4), flat = [1, 2, 3, 4]\<rparr> 2 =
     Inr \<lparr>shape = (1, 6), flat = [1, 2, 3, 4, 0, 0]\<rparr> \<and>
   pad_length 4 2 = 2 \<and> (2 - 4 mod 2) mod 2 = (0::int)"
  by (simp add: pad_to_chunk_def pad_length_def np_pad_def from_rows_def rows_def
      numeral_2_eq_2)

section \<open>Shape of the frequency transform\<close>

text \<open>
  C2, as amended. For a well-formed batch of \<open>N \<ge> 1\<close> rows and \<open>T\<close> steps, positive
  \<open>C\<close> and \<open>F\<close>, and \<open>T\<close> not a multiple of \<open>C\<close>, \<^verbatim>\<open>simple_fourier\<close> returns an array of
  shape \<open>(N * ceil (T / C), F div 2 + 1, 3)\<close>: one row per chunk, one column per bin.
\<close>

theorem simple_fourier_shape:
  assumes "wf_array a" and "shape a = (N, T)" and "0 < N" and "0 < C" and "0 < F"
    and "T mod C \<noteq> 0"
  shows "result_shape (fst (simple_fourier a (int C) (int F))) =
           Inr (N * ((T + C - 1) div C), F div 2 + 1, 3)"
proof -
  have "0 < fst (shape a)" using assms(2,3) by simp
  from simple_fourier_ok [OF assms(1) this assms(4,5)] show ?thesis
    using assms(2) ceil_div [OF assms(4,6)] by (auto simp: result_shape_def)
qed

text \<open>The hypotheses hold for a batch of 2 rows and 5 steps, chunk size 2, transform size 8.\<close>

theorem simple_fourier_shape_witness:
  "result_shape (fst (simple_fourier \<lparr>shape = (2, 5), flat = [1, 2, 3, 4, 5, 6, 7, 8, 9, 10]\<rparr> 2 8)) =
     Inr (6, 5, 3)"
  using simple_fourier_shape [of "\<lparr>shape = (2, 5), flat = [1, 2, 3, 4, 5, 6, 7, 8, 9, 10]\<rparr>" 2 5 2 8]
  by (simp add: wf_array_def)

text \<open>
  C2 as stated fails: for one row of 3 steps, chunk size 2 and transform size 4 the claim
  gives shape \<open>(1, 2 * 3, 3)\<close>; the code returns shape \<open>(2, 3, 3)\<close>.
\<close>

theorem simple_fourier_shape_counterexample:
  "result_shape (fst (simple_fourier \<lparr>shape = (1, 3), flat = [1, 2, 3]\<rparr> 2 4)) = Inr (2, 3, 3) \<and>
   (2, 3, 3) \<noteq> (1 :: nat, ((3 + 2 - 1) div 2) * (4 div 2 + 1) :: nat, 3 :: nat)"
  using simple_fourier_ok [of "\<lparr>shape = (1, 3), flat = [1, 2, 3]\<rparr>" 2 4]
  by (auto simp: wf_array_def result_shape_def)

section \<open>The filter list is not extended\<close>

lemma extend_filters_short:
  "num_filters \<noteq> [] \<Longrightarrow> int (length num_filters) < num_blocks \<Longrightarrow>
   extend_filters num_filters num_blocks = Inl TypeError"
  by (cases "rev num_filters") (simp_all add: extend_filters_def last_item_def bind_err_def)

text \<open>
  C10. The claim: a filter list shorter than \<open>num_blocks\<close> is extended with its last
  value up to \<open>num_blocks\<close> entries. The code at \<^verbatim>\<open>num_filters = "32"\<close>,
  \<^verbatim>\<open>num_block = 3\<close> does not return \<open>[32, 32, 32]\<close>: \<^verbatim>\<open>extend\<close> is handed an int and
  raises TypeError.
\<close>

theorem extend_filters_raises:
  "extend_filters [32] 3 = Inl TypeError \<and> extend_filters [32] 3 \<noteq> Inr [32, 32, 32]"
  by (simp add: extend_filters_def last_item_def bind_err_def)

section \<open>Which exceptions the transforms raise\<close>

lemma bind_err_Inl:
  "bind_err m f = Inl e \<longleftrightarrow> m = Inl e \<or> (\<exists>x. m = Inr x \<and> f x = Inl e)"
  by (cases m) (simp_all add: bind_err_def)

lemma np_pad_error: "np_pad a p = Inl e \<Longrightarrow> e = ValueError"
  by (simp add: np_pad_def split: if_splits)

lemma pad_to_chunk_error: "pad_to_chunk a c = Inl e \<Longrightarrow> e = ValueError \<or> e = ZeroDivisionError"
  by (auto simp: pad_to_chunk_def split: if_splits dest: np_pad_error)

lemma reshape_error: "reshape a s = Inl e \<Longrightarrow> e = ValueError"
  by (simp add: reshape_def split: if_splits)

lemma np_abs_rfft_error: "np_abs_rfft a n = Inl e \<Longrightarrow> e = ValueError"
  by (simp add: np_abs_rfft_def split: if_splits)

lemma normalize_rows_error: "normalize_rows a = Inl e \<Longrightarrow> e = ValueError"
  by (simp add: normalize_rows_def np_max_axis1_def bind_err_def Let_def split: if_splits)

lemma shift_rows_error: "shift_rows a = Inl e \<Longrightarrow> e = ValueError"
  by (simp add: shift_rows_def np_min_axis1_def bind_err_def split: if_splits)

lemma np_stack_error: "np_stack a b c = Inl e \<Longrightarrow> e = ValueError"
  by (simp add: np_stack_def split: if_splits)

lemma simple_fourier_error:
  "fst (simple_fourier a c f) = Inl e \<Longrightarrow> e = ValueError \<or> e = ZeroDivisionError"
  unfolding simple_fourier_def Let_def fst_conv bind_err_Inl
  by (auto dest: pad_to_chunk_error reshape_error np_abs_rfft_error normalize_rows_error
      np_stack_error)

lemma simple_fourier_kw_error:
  "fst (simple_fourier_kw a kw) = Inl e \<Longrightarrow>
   e = ValueError \<or> e = ZeroDivisionError \<or> e = TypeError"
  by (auto simp: simple_fourier_kw_def split: if_splits dest: simple_fourier_error)

lemma spectrogram_error:
  "fst (spectrogram sxx a) = Inl e \<Longrightarrow> e = ValueError \<or> e = LibraryError"
  by (auto simp: spectrogram_def split: option.splits dest: np_stack_error)

lemma nothing_error: "fst (nothing a) = Inl e \<Longrightarrow> e = ValueError"
  by (auto simp: nothing_def bind_err_Inl split: sum.splits
      dest: shift_rows_error normalize_rows_error np_stack_error)


section \<open>The transform selector\<close>

text \<open>
  C3, as amended. \<^verbatim>\<open>extract\<close> compares the method name with the strings \<open>fft\<close>,
  \<open>spectrogram\<close> and \<open>nothing\<close>: for each of them it returns what the corresponding
  transform returns, and it raises its "Invalid feature extraction method" exception for
  exactly the other strings (no transform raises that exception itself).
\<close>

theorem extract_dispatch:
  "extract sxx a ''fft'' kw = simple_fourier_kw a kw \<and>
   extract sxx a ''spectrogram'' kw = spectrogram sxx a \<and>
   extract sxx a ''nothing'' kw = nothing a \<and>
   (fst (extract sxx a m kw) = Inl (Exception ''Invalid feature extraction method'')) =
     (m \<noteq> ''fft'' \<and> m \<noteq> ''spectrogram'' \<and> m \<noteq> ''nothing'')"
proof -
  let ?err = "Inl (Exception ''Invalid feature extraction method'')"
  have "fst (simple_fourier_kw a kw) \<noteq> ?err"
    using simple_fourier_kw_error [of a kw] by auto
  moreover have "fst (spectrogram sxx a) \<noteq> ?err"
    using spectrogram_error [of sxx a] by auto
  moreover have "fst (nothing a) \<noteq> ?err"
    using nothing_error [of a] by auto
  ultimately show ?thesis by (simp add: extract_def)
qed

text \<open>The selector at \<open>nothing\<close>, and at a name that differs from it in one letter's case.\<close>

theorem extract_dispatch_witness:
  "extract Map.empty \<lparr>shape = (1, 2), flat = [1, 2]\<rparr> ''nothing'' [] =
     nothing \<lparr>shape = (1, 2), flat = [1, 2]\<rparr> \<and>
   fst (extract Map.empty \<lparr>shape = (1, 2), flat = [1, 2]\<rparr> ''Nothing'' []) =
     Inl (Exception ''Invalid feature extraction method'')"
  using extract_dispatch [of Map.empty "\<lparr>shape = (1, 2), flat = [1, 2]\<rparr>" "[]" "''Nothing''"]
  by simp

text \<open>
  C3 as stated fails: the names \<open>frequency\<close> and \<open>identity\<close> are not matched, and
  \<^verbatim>\<open>extract\<close> raises for them.
\<close>

theorem extract_dispatch_counterexample:
  "fst (extract Map.empty \<lparr>shape = (1, 2), flat = [1, 2]\<rparr> ''frequency'' []) =
     Inl (Exception ''Invalid feature extraction method'') \<and>
   fst (extract Map.empty \<lparr>shape = (1, 2), flat = [1, 2]\<rparr> ''identity'' []) =
     Inl (Exception ''Invalid feature extraction method'')"
  by (simp add: extract_def)

section \<open>What a call leaves in the caller's array\<close>




section \<open>Unsupported methods\<close>

text \<open>
  C9. For every method name other than the three that \<^verbatim>\<open>extract\<close> matches, the call
  raises the "Invalid feature extraction method" exception, returns no array and leaves
  its argument alone; there is no default transform.
\<close>

theorem extract_unsupported:
  "m \<noteq> ''fft'' \<Longrightarrow> m \<noteq> ''spectrogram'' \<Longrightarrow> m \<noteq> ''nothing'' \<Longrightarrow>
   extract sxx a m kw = (Inl (Exception ''Invalid feature extraction method''), a)"
  by (simp add: extract_def)

text \<open>The spec's example: the method \<open>bogus\<close>.\<close>

theorem extract_unsupported_witness:
  "extract Map.empty \<lparr>shape = (1, 2), flat = [1, 2]\<rparr> ''bogus''
     [(''chunk_size'', 64), (''fft_size'', 128)] =
   (Inl (Exception ''Invalid feature extraction method''), \<lparr>shape = (1, 2), flat = [1, 2]\<rparr>)"
  using extract_unsupported [of "''bogus''" Map.empty "\<lparr>shape = (1, 2), flat = [1, 2]\<rparr>"
      "[(''chunk_size'', 64), (''fft_size'', 128)]"]
  by simp

section \<open>The row normaliser\<close>

lemma row_max_Max: "row \<noteq> [] \<Longrightarrow> row_max row = Max (set row)"
  by (cases row) (simp_all add: Max.set_eq_fold [symmetric])


lemma nth_rows:
  assumes "wf_array a" "i < fst (shape a)"
  shows "length (rows a ! i) = snd (shape a)"
  using length_row [OF assms(1), of "rows a ! i"] assms(2) by (simp add: length_rows)

lemma item_in_flat:
  assumes "wf_array a" "i < fst (shape a)" "j < snd (shape a)"
  shows "item a i j \<in> set (flat a)"
proof -
  have "Suc i * snd (shape a) \<le> fst (shape a) * snd (shape a)"
    using assms(2) by (intro mult_le_mono1) simp
  then have "i * snd (shape a) + j < length (flat a)"
    using assms(1,3) by (simp add: wf_array_def)
  then show ?thesis by (simp add: item_def)
qed

text \<open>
  C4. For a well-formed array with at least one column and no negative entry,
  \<open>normalize_rows\<close> returns an array of the same shape whose entries lie in \<open>[0, 1]\<close>;
  an entry that was the maximum of its row becomes 1 when that maximum is not 0, and a row
  whose maximum is 0 becomes (stays) all zero: the divisor is then 1.
\<close>

theorem normalize_rows_unit_interval:
  assumes wf: "wf_array a" and cols: "0 < snd (shape a)"
    and nonneg: "\<forall>x\<in>set (flat a). 0 \<le> x"
  shows "\<exists>b. normalize_rows a = Inr b \<and> shape b = shape a \<and>
           (\<forall>i < fst (shape a). \<forall>j < snd (shape a).
              0 \<le> item b i j \<and> item b i j \<le> 1 \<and>
              (item a i j = Max (set (rows a ! i)) \<and> Max (set (rows a ! i)) \<noteq> 0 \<longrightarrow>
                 item b i j = 1) \<and>
              (Max (set (rows a ! i)) = 0 \<longrightarrow> item b i j = 0))"
proof -
  obtain b where b: "normalize_rows a = Inr b" "shape b = shape a" "wf_array b"
      "rows b = map norm_row (rows a)"
    using normalize_rows_ok [OF wf cols] by blast
  have "0 \<le> item b i j \<and> item b i j \<le> 1 \<and>
        (item a i j = Max (set (rows a ! i)) \<and> Max (set (rows a ! i)) \<noteq> 0 \<longrightarrow>
           item b i j = 1) \<and>
        (Max (set (rows a ! i)) = 0 \<longrightarrow> item b i j = 0)"
    if i: "i < fst (shape a)" and j: "j < snd (shape a)" for i j
  proof -
    define row where "row = rows a ! i"
    define m where "m = Max (set row)"
    define x where "x = item a i j"
    have len: "length row = snd (shape a)"
      using nth_rows [OF wf i] by (simp add: row_def)
    then have ne: "row \<noteq> []" using cols by auto
    have x: "x = row ! j" using item_rows [OF wf i j] by (simp add: x_def row_def)
    then have "x \<in> set row" using j len by simp
    then have xm: "x \<le> m" by (simp add: m_def)
    have x0: "0 \<le> x" using nonneg item_in_flat [OF wf i j] by (simp add: x_def)
    have "item b i j = rows b ! i ! j"
      using item_rows [OF b(3)] i j b(2) by simp
    also have "\<dots> = norm_row row ! j"
      using i by (simp add: b(4) length_rows row_def)
    also have "\<dots> = x / (if m = 0 then 1 else m)"
      using j len x row_max_Max [OF ne] by (simp add: norm_row_def m_def)
    finally have eq: "item b i j = x / (if m = 0 then 1 else m)" .
    show ?thesis
    proof (cases "m = 0")
      case True
      then have "x = 0" using xm x0 by simp
      then show ?thesis using eq True by (simp add: row_def [symmetric] m_def [symmetric])
    next
      case False
      then have "0 < m" using xm x0 by simp
      then show ?thesis
        using eq xm x0 by (simp add: row_def [symmetric] m_def [symmetric] x_def [symmetric])
    qed
  qed
  then show ?thesis using b(1,2) by blast
qed

text \<open>The rows \<open>[1, 4]\<close> and \<open>[0, 0]\<close>: the 4 becomes 1, the zero row stays zero.\<close>

theorem normalize_rows_unit_interval_witness:
  "\<exists>b. normalize_rows \<lparr>shape = (2, 2), flat = [1, 4, 0, 0]\<rparr> = Inr b \<and> shape b = (2, 2) \<and>
        item b 0 1 = 1 \<and> item b 1 0 = 0 \<and> 0 \<le> item b 0 0 \<and> item b 0 0 \<le> 1"
proof -
  let ?a = "\<lparr>shape = (2, 2), flat = [1, 4, 0, 0]\<rparr>"
  have r: "rows ?a = [[1, 4], [0, 0]]"
    by (simp add: rows_def upt_conv_Cons)
  have "wf_array ?a" "0 < snd (shape ?a)" "\<forall>x\<in>set (flat ?a). 0 \<le> x"
    by (simp_all add: wf_array_def)
  from normalize_rows_unit_interval [OF this]
  obtain b where b: "normalize_rows ?a = Inr b" "shape b = (2, 2)"
    and all: "\<forall>i<2. \<forall>j<2. 0 \<le> item b i j \<and> item b i j \<le> 1 \<and>
              (item ?a i j = Max (set (rows ?a ! i)) \<and> Max (set (rows ?a ! i)) \<noteq> 0 \<longrightarrow>
                 item b i j = 1) \<and>
              (Max (set (rows ?a ! i)) = 0 \<longrightarrow> item b i j = 0)"
    by auto
  from all [rule_format, of 0 1] all [rule_format, of 1 0] all [rule_format, of 0 0]
  have "item b 0 1 = 1" "item b 1 0 = 0" "0 \<le> item b 0 0" "item b 0 0 \<le> 1"
    by (simp_all add: r item_def)
  then show ?thesis using b by blast
qed

section \<open>The identity transform\<close>

lemma shift_rows_ok:
  assumes "wf_array a" "0 < snd (shape a)"
  shows "\<exists>s. shift_rows a = Inr s \<and> shape s = shape a \<and> wf_array s \<and>
             rows s = map shift_row (rows a)"
proof -
  let ?xss = "map shift_row (rows a)"
  have eq: "map (\<lambda>(row, m). map (\<lambda>x. x - m) row) (zip (rows a) (map row_min (rows a))) = ?xss"
    using map_zip_map [of "\<lambda>row m. map (\<lambda>x. x - m) row" "rows a" row_min]
    by (simp add: shift_row_def)
  have len: "length ?xss = fst (shape a)" by (simp add: length_rows)
  have each: "\<forall>xs\<in>set ?xss. length xs = snd (shape a)"
    using length_row [OF assms(1)] by (auto simp: shift_row_def)
  have "shift_rows a = Inr (from_rows (fst (shape a)) (snd (shape a)) ?xss)"
    using assms(2) eq by (simp add: shift_rows_def np_min_axis1_def bind_err_def)
  then show ?thesis
    using wf_from_rows [OF len each] rows_from_rows [OF len each] by simp
qed






section \<open>The three channel planes\<close>

lemma bind_err_Inr:
  "bind_err m f = Inr y \<longleftrightarrow> (\<exists>x. m = Inr x \<and> f x = Inr y)"
  by (cases m) (simp_all add: bind_err_def)

lemma reshape_wf: "reshape a s = Inr b \<Longrightarrow> wf_array b"
  by (auto simp: reshape_def wf_array_def split: if_splits)

lemma stack_nth:
  "n < length xs \<Longrightarrow> k < 3 \<Longrightarrow>
   concat (map (\<lambda>(x, y, z). [x, y, z]) (zip xs (zip xs xs))) ! (n * 3 + k) = xs ! n"
proof (induction xs arbitrary: n)
  case Nil
  then show ?case by simp
next
  case (Cons x xs)
  show ?case
  proof (cases n)
    case 0
    then show ?thesis using Cons.prems(2) by (cases k rule: nat.exhaust) (auto simp: less_Suc_eq numeral_3_eq_3)
  next
    case (Suc n')
    then have "n' < length xs" using Cons.prems(1) by simp
    from Cons.IH [OF this Cons.prems(2)] show ?thesis
      using Suc by (simp add: nth_Cons' numeral_3_eq_3)
  qed
qed

lemma stack_planes:
  assumes wf: "wf_array s" and st: "np_stack s s s = Inr out"
    and sh: "shape3 out = (r, c, d)" and i: "i < r" and j: "j < c" and k: "k < 3"
  shows "d = 3 \<and> item3 out i j k = item s i j"
proof -
  have out: "out = \<lparr>shape3 = (fst (shape s), snd (shape s), 3),
      flat3 = concat (map (\<lambda>(x, y, z). [x, y, z]) (zip (flat s) (zip (flat s) (flat s))))\<rparr>"
    using st by (simp add: np_stack_same)
  then have d: "r = fst (shape s)" "c = snd (shape s)" "d = 3" using sh by simp_all
  have "Suc i * c \<le> r * c" using i by (intro mult_le_mono1) simp
  then have "i * c + j < length (flat s)" using wf j d by (simp add: wf_array_def)
  from stack_nth [OF this k] show ?thesis
    using d by (simp add: item3_def item_def out)
qed

lemma simple_fourier_stack:
  assumes "fst (simple_fourier a c f) = Inr out"
  shows "\<exists>s. wf_array s \<and> np_stack s s s = Inr out"
  using assms unfolding simple_fourier_def Let_def fst_conv bind_err_Inr
  by (blast intro: reshape_wf)

lemma simple_fourier_kw_stack:
  assumes "fst (simple_fourier_kw a kw) = Inr out"
  shows "\<exists>s. wf_array s \<and> np_stack s s s = Inr out"
  using assms simple_fourier_stack by (auto simp: simple_fourier_kw_def split: if_splits)

lemma shift_rows_cols: "shift_rows a = Inr s \<Longrightarrow> 0 < snd (shape a)"
  by (simp add: shift_rows_def np_min_axis1_def bind_err_def split: if_splits)

lemma nothing_stack:
  assumes wf: "wf_array a" and res: "fst (nothing a) = Inr out"
  shows "\<exists>s. wf_array s \<and> np_stack s s s = Inr out"
proof -
  from res obtain shifted where sh: "shift_rows a = Inr shifted"
    by (cases "shift_rows a") (simp_all add: nothing_def)
  from shift_rows_ok [OF wf shift_rows_cols [OF sh]] sh
  have s: "wf_array shifted" "shape shifted = shape a" by auto
  have "0 < snd (shape shifted)" using shift_rows_cols [OF sh] s(2) by simp
  from normalize_rows_ok [OF s(1) this]
  obtain normalized where n: "normalize_rows shifted = Inr normalized" "wf_array normalized"
    by blast
  then have "np_stack normalized normalized normalized = Inr out"
    using res sh by (simp add: nothing_def bind_err_def)
  then show ?thesis using n(2) by blast
qed

lemma spectrogram_stack:
  assumes "\<forall>x s. sxx x = Some s \<longrightarrow> wf_array s" and "fst (spectrogram sxx a) = Inr out"
  shows "\<exists>s. wf_array s \<and> np_stack s s s = Inr out"
  using assms by (auto simp: spectrogram_def split: option.splits)

text \<open>
  C7. For a well-formed batch (and a spectrogram routine that returns well-formed arrays),
  whenever \<^verbatim>\<open>extract\<close> returns an array, its third dimension is 3 and the three planes
  agree at every position: \<open>out[i][j][0] = out[i][j][1] = out[i][j][2]\<close>. The method is
  arbitrary; an unsupported one returns nothing.
\<close>

theorem extract_planes_equal:
  assumes wf: "wf_array a" and lib: "\<forall>x s. sxx x = Some s \<longrightarrow> wf_array s"
    and res: "fst (extract sxx a m kw) = Inr out"
    and sh: "shape3 out = (r, c, d)" and i: "i < r" and j: "j < c"
  shows "d = 3 \<and> item3 out i j 0 = item3 out i j 1 \<and> item3 out i j 1 = item3 out i j 2"
proof -
  have "\<exists>s. wf_array s \<and> np_stack s s s = Inr out"
    using res simple_fourier_kw_stack [of a kw out] spectrogram_stack [OF lib, of a out]
      nothing_stack [OF wf, of out]
    by (auto simp: extract_def split: if_splits)
  then obtain s where s: "wf_array s" "np_stack s s s = Inr out" by blast
  show ?thesis
    using stack_planes [OF s sh i j, of 0] stack_planes [OF s sh i j, of 1]
      stack_planes [OF s sh i j, of 2]
    by simp
qed

lemma nothing_example:
  "nothing \<lparr>shape = (1, 3), flat = [0, 999, 1000]\<rparr> =
     (Inr \<lparr>shape3 = (1, 3, 3),
           flat3 = [0, 0, 0, 999 / 1000, 999 / 1000, 999 / 1000, 1, 1, 1]\<rparr>,
      \<lparr>shape = (1, 3), flat = [0, 999, 1000]\<rparr>)"
  by (simp add: nothing_def shift_rows_def np_min_axis1_def normalize_rows_def np_max_axis1_def
      bind_err_def rows_def from_rows_def np_stack_def)

text \<open>The identity transform on the row \<open>[0, 999, 1000]\<close>.\<close>

theorem extract_planes_equal_witness:
  "item3 \<lparr>shape3 = (1, 3, 3),
           flat3 = [0, 0, 0, 999 / 1000, 999 / 1000, 999 / 1000, 1, 1, 1]\<rparr> 0 1 0 =
   item3 \<lparr>shape3 = (1, 3, 3),
           flat3 = [0, 0, 0, 999 / 1000, 999 / 1000, 999 / 1000, 1, 1, 1]\<rparr> 0 1 1 \<and>
   item3 \<lparr>shape3 = (1, 3, 3),
           flat3 = [0, 0, 0, 999 / 1000, 999 / 1000, 999 / 1000, 1, 1, 1]\<rparr> 0 1 1 =
   item3 \<lparr>shape3 = (1, 3, 3),
           flat3 = [0, 0, 0, 999 / 1000, 999 / 1000, 999 / 1000, 1, 1, 1]\<rparr> 0 1 2"
proof -
  let ?a = "\<lparr>shape = (1, 3), flat = [0, 999, 1000]\<rparr>"
  let ?out = "\<lparr>shape3 = (1, 3, 3),
           flat3 = [0, 0, 0, 999 / 1000, 999 / 1000, 999 / 1000, 1, 1, 1]\<rparr>"
  have "wf_array ?a" by (simp add: wf_array_def)
  moreover have "\<forall>x s. Map.empty x = Some s \<longrightarrow> wf_array s" by simp
  moreover have "fst (extract Map.empty ?a ''nothing'' []) = Inr ?out"
    using nothing_example by (simp add: extract_def)
  moreover have "shape3 ?out = (1, 3, 3)" by simp
  ultimately show ?thesis
    using extract_planes_equal [of ?a Map.empty "''nothing''" "[]" ?out 1 3 3 0 1] by simp
qed

section \<open>From feature values to pixels\<close>







end
